theory Spec2Isabelle
  imports Main "HOL-Library.Sublist"
begin

section \<open>Python values and helpers\<close>

text \<open>
  The values \<open>fetch_article\<close> can return: a \<open>str\<close>, or the tuple \<open>(None, str(e))\<close>.
  A Python \<open>str\<close> is modelled as a \<open>string\<close>, one \<open>char\<close> per character.
\<close>

datatype pyvalue = PyNone | PyStr string | PyTuple "pyvalue list"

datatype py_error = IndexError | ValueError

text \<open>\<open>isinstance(v, tuple)\<close>.\<close>

fun isinstance_tuple :: "pyvalue \<Rightarrow> bool" where
  "isinstance_tuple (PyTuple vs) = True"
| "isinstance_tuple PyNone = False"
| "isinstance_tuple (PyStr s) = False"

text \<open>\<open>sep.join(xs)\<close>.\<close>

fun join :: "string \<Rightarrow> string list \<Rightarrow> string" where
  "join sep [] = []"
| "join sep [x] = x"
| "join sep (x # y # ys) = x @ sep @ join sep (y # ys)"

text \<open>
  \<open>str(v)\<close> as an f-string renders it. Only the \<open>str\<close> case is reached by this
  program (the second component of the failure tuple); a tuple is rendered without the
  quoting that \<open>repr\<close> adds to its strings.
\<close>

fun py_str :: "pyvalue \<Rightarrow> string" where
  "py_str PyNone = ''None''"
| "py_str (PyStr s) = s"
| "py_str (PyTuple vs) = ''('' @ join '', '' (map py_str vs) @ '')''"

text \<open>Decimal rendering of a non-negative integer, as \<open>str(n)\<close> and f-strings do.\<close>

definition digit_char :: "nat \<Rightarrow> char" where
  "digit_char d = char_of (of_char (CHR ''0'') + d)"

function str_nat :: "nat \<Rightarrow> string" where
  "str_nat n = (if n < 10 then [digit_char n] else str_nat (n div 10) @ [digit_char (n mod 10)])"
  by pat_completeness auto
termination
  by (relation "measure id") auto

declare str_nat.simps [simp del]

text \<open>
  The characters \<open>str.strip()\<close> removes, among the first 256 code points:
  tab, line feed, vertical tab, form feed, carriage return, the four separators
  \<open>0x1c\<close> to \<open>0x1f\<close>, space, \<open>0x85\<close> and \<open>0xa0\<close>.
\<close>

definition isspace :: "char \<Rightarrow> bool" where
  "isspace c = (of_char c \<in> set [9, 10, 11, 12, 13, 28, 29, 30, 31, 32, 133, 160 :: nat])"

definition strip :: "string \<Rightarrow> string" where
  "strip s = rev (dropWhile isspace (rev (dropWhile isspace s)))"

section \<open>The parsed HTML tree and the parser's queries\<close>

text \<open>
  The tree \<open>BeautifulSoup(response.content, 'html.parser')\<close> builds: a text node, or an
  element with its tag name, the tokens of its \<open>class\<close> attribute (none when the attribute
  is absent) and its children. A document is the list of its top-level nodes.

  BeautifulSoup is a library the program calls. Its queries are given here as its
  documentation and code describe them, for the selectors and the arguments the program
  passes. A text node is a string that \<open>get_text\<close> collects; comments, declarations,
  the strings inside \<open>template\<close> elements (which \<open>get_text\<close> skips) and other
  attributes are left out.
\<close>

datatype node = TextNode string | Element string "string list" "node list"

type_synonym soup = "node list"

text \<open>The elements below a node, itself included, in document order.\<close>

fun elements :: "node \<Rightarrow> node list" where
  "elements (TextNode s) = []"
| "elements (Element nm cls kids) = Element nm cls kids # concat (map elements kids)"

definition soup_elements :: "soup \<Rightarrow> node list" where
  "soup_elements sp = concat (map elements sp)"

text \<open>
  \<open>for script in soup(['script', 'style', 'nav', 'header', 'footer']): script.decompose()\<close>:
  every element with one of these names is removed with all it contains.
\<close>

fun decompose_all :: "string list \<Rightarrow> node \<Rightarrow> node list" where
  "decompose_all names (TextNode s) = [TextNode s]"
| "decompose_all names (Element nm cls kids) =
     (if nm \<in> set names then []
      else [Element nm cls (concat (map (decompose_all names) kids))])"

definition noise_tags :: "string list" where
  "noise_tags = [''script'', ''style'', ''nav'', ''header'', ''footer'']"

definition remove_noise :: "soup \<Rightarrow> soup" where
  "remove_noise sp = concat (map (decompose_all noise_tags) sp)"

text \<open>
  The three kinds of selector the source uses: a tag name (\<open>article\<close>), a class
  (\<open>.article-content\<close>), and a substring of the class attribute
  (\<open>[class*="article"]\<close>), whose value is its tokens joined by single spaces.
\<close>

datatype selector = TagSel string | ClassSel string | ClassContains string

fun contains :: "string \<Rightarrow> string \<Rightarrow> bool" where
  "contains sub [] = (sub = [])"
| "contains sub (c # cs) = (prefix sub (c # cs) \<or> contains sub cs)"

fun matches :: "selector \<Rightarrow> node \<Rightarrow> bool" where
  "matches sel (TextNode s) = False"
| "matches (TagSel t) (Element nm cls kids) = (nm = t)"
| "matches (ClassSel c) (Element nm cls kids) = (c \<in> set cls)"
| "matches (ClassContains sub) (Element nm cls kids) = (cls \<noteq> [] \<and> contains sub (join '' '' cls))"

text \<open>\<open>soup.select_one(selector)\<close>: the first matching element in document order.\<close>

definition select_one :: "selector \<Rightarrow> soup \<Rightarrow> node option" where
  "select_one sel sp = find (matches sel) (soup_elements sp)"

text \<open>\<open>soup.find_all(name)\<close>: every element of that name, in document order.\<close>

definition find_all :: "string \<Rightarrow> soup \<Rightarrow> node list" where
  "find_all t sp = filter (matches (TagSel t)) (soup_elements sp)"

text \<open>The text fragments below a node, in document order.\<close>

fun all_strings :: "node \<Rightarrow> string list" where
  "all_strings (TextNode s) = [s]"
| "all_strings (Element nm cls kids) = concat (map all_strings kids)"

text \<open>
  \<open>node.get_text(separator, strip)\<close>: the fragments joined by the separator; with
  \<open>strip=True\<close> every fragment is stripped by itself and the empty ones are dropped.
\<close>

definition get_text :: "string \<Rightarrow> bool \<Rightarrow> node \<Rightarrow> string" where
  "get_text separator strp nd =
     join separator
       (if strp then filter (\<lambda>s. s \<noteq> []) (map strip (all_strings nd)) else all_strings nd)"

section \<open>The HTTP request\<close>

text \<open>
  The requests library is one the program calls. Where \<open>requests.get\<close> raises for a
  time-out or a failed connection, its adapter wraps an error of urllib3 in an exception
  of its own, whose \<open>str\<close> is that of the wrapped error. The errors are kept with the
  parts of their messages that vary: a \<open>ProtocolError("Connection aborted.", e)\<close> with
  \<open>repr(e)\<close>; a \<open>MaxRetryError\<close> with the pool, the URL and the \<open>repr\<close> of its
  reason; a \<open>ReadTimeoutError\<close> with the pool and, when the message reports it, the
  read time-out.
\<close>

datatype urllib3_error =
    ProtocolError string
  | MaxRetryError string string string
  | ReadTimeoutError string "nat option"

fun str_urllib3_error :: "urllib3_error \<Rightarrow> string" where
  "str_urllib3_error (ProtocolError cause) =
     [CHR ''('', CHR 0x27] @ ''Connection aborted.'' @ [CHR 0x27] @ '', '' @ cause @ '')''"
| "str_urllib3_error (MaxRetryError pool url cause) =
     pool @ '': Max retries exceeded with url: '' @ url @ '' (Caused by '' @ cause @ '')''"
| "str_urllib3_error (ReadTimeoutError pool None) = pool @ '': Read timed out.''"
| "str_urllib3_error (ReadTimeoutError pool (Some t)) =
     pool @ '': Read timed out. (read timeout='' @ str_nat t @ '')''"

datatype request_exception =
    ConnectionError urllib3_error
  | ConnectTimeout urllib3_error
  | ReadTimeout urllib3_error

fun str_request_exception :: "request_exception \<Rightarrow> string" where
  "str_request_exception (ConnectionError e) = str_urllib3_error e"
| "str_request_exception (ConnectTimeout e) = str_urllib3_error e"
| "str_request_exception (ReadTimeout e) = str_urllib3_error e"

text \<open>
  The body of a response is kept as what \<open>BeautifulSoup(response.content, 'html.parser')\<close>
  makes of it. The parser rejects some markup, such as the marked section
  \<open><![x[ ]]>\<close> with its unknown keyword, and \<open>BeautifulSoup\<close> then raises
  \<open>ParserRejectedMarkup\<close>, kept by its message; of any other markup it builds the tree.
\<close>

datatype markup = Malformed string | Document soup

definition BeautifulSoup :: "markup \<Rightarrow> string + soup" where
  "BeautifulSoup m = (case m of Malformed msg \<Rightarrow> Inl msg | Document doc \<Rightarrow> Inr doc)"

text \<open>
  What \<open>requests.get(url, headers=headers, timeout=10)\<close> does is the environment's
  choice: it raises an exception, or it returns a response with a status code, a reason
  phrase and a body. \<open>Inl\<close> is an exception raised, kept as its \<open>str\<close>.
\<close>

record response =
  status_code :: nat
  reason :: string
  content :: markup

datatype http_outcome = Raises request_exception | Returns response

type_synonym web = "string \<Rightarrow> http_outcome"

definition requests_get :: "web \<Rightarrow> string \<Rightarrow> string + response" where
  "requests_get w url =
     (case w url of Raises e \<Rightarrow> Inl (str_request_exception e) | Returns r \<Rightarrow> Inr r)"

text \<open>
  \<open>response.raise_for_status()\<close>: an \<open>HTTPError\<close> for a status from 400 to 599, whose
  message names the status, the reason and the URL of the response (taken to be the URL
  requested); nothing otherwise.
\<close>

definition raise_for_status :: "string \<Rightarrow> response \<Rightarrow> string + unit" where
  "raise_for_status url r =
     (if 400 \<le> status_code r \<and> status_code r < 500
      then Inl (str_nat (status_code r) @ '' Client Error: '' @ reason r @ '' for url: '' @ url)
      else if 500 \<le> status_code r \<and> status_code r < 600
      then Inl (str_nat (status_code r) @ '' Server Error: '' @ reason r @ '' for url: '' @ url)
      else Inr ())"

section \<open>\<open>fetch_article\<close>\<close>

definition selectors :: "selector list" where
  "selectors =
     [TagSel ''article'', ClassSel ''article-content'', ClassSel ''story-content'',
      ClassContains ''article'', ClassContains ''content'']"

text \<open>
  The loop over the selectors: \<open>article_text\<close> starts empty; the first selector that
  finds an element sets it to that element's text and breaks.
\<close>

fun select_loop :: "selector list \<Rightarrow> soup \<Rightarrow> string" where
  "select_loop [] sp = []"
| "select_loop (sel # sels) sp =
     (case select_one sel sp of
        Some found \<Rightarrow> get_text '' '' True found
      | None \<Rightarrow> select_loop sels sp)"

text \<open>What follows the removal of the noise elements, up to \<open>return article_text\<close>.\<close>

definition extract_text :: "selector list \<Rightarrow> soup \<Rightarrow> string" where
  "extract_text sels sp =
     (let article_text = select_loop sels sp
      in if article_text = []
         then join '' '' (map (get_text [] True) (find_all ''p'' sp))
         else article_text)"

text \<open>
  The body of the \<open>try\<close>, in the order of the source: the request, the check of the
  status, the parse, the removal of the noise elements, the extraction. \<open>Inl\<close> is an
  exception raised, kept as its \<open>str\<close>.
\<close>

definition fetch_body :: "web \<Rightarrow> string \<Rightarrow> string + string" where
  "fetch_body w url =
     (case requests_get w url of
        Inl e \<Rightarrow> Inl e
      | Inr r \<Rightarrow>
          (case raise_for_status url r of
             Inl e \<Rightarrow> Inl e
           | Inr u \<Rightarrow>
               (case BeautifulSoup (content r) of
                  Inl e \<Rightarrow> Inl e
                | Inr sp \<Rightarrow> Inr (extract_text selectors (remove_noise sp)))))"

text \<open>\<open>except Exception as e: return None, str(e)\<close>.\<close>

definition fetch_article :: "web \<Rightarrow> string \<Rightarrow> pyvalue" where
  "fetch_article w url =
     (case fetch_body w url of
        Inl e \<Rightarrow> PyTuple [PyNone, PyStr e]
      | Inr article_text \<Rightarrow> PyStr article_text)"

section \<open>\<open>analyze_pos\<close>\<close>

text \<open>
  The tokenizer and the tagger are NLTK's, a library the program calls:
  \<open>word_tokenize\<close> is any function from a text to its tokens, and \<open>pos_tag\<close>
  returns one pair for every token, in order, the token with the tag the tagger gives it
  at its position in the token list. Which tokens and which tags is left open.
\<close>

record nltk =
  word_tokenize :: "string \<Rightarrow> string list"
  tag_at :: "string list \<Rightarrow> nat \<Rightarrow> string"

definition pos_tag :: "nltk \<Rightarrow> string list \<Rightarrow> (string \<times> string) list" where
  "pos_tag lib tokens = zip tokens (map (tag_at lib tokens) [0..<length tokens])"

text \<open>
  \<open>collections.Counter\<close>: a dict, its keys in the order of their first insertion.
  \<open>Counter(xs)\<close> adds one to the count of each element in turn.
\<close>

fun counter_add :: "'a \<Rightarrow> ('a \<times> nat) list \<Rightarrow> ('a \<times> nat) list" where
  "counter_add x [] = [(x, 1)]"
| "counter_add x ((k, c) # kvs) =
     (if k = x then (k, c + 1) # kvs else (k, c) # counter_add x kvs)"

definition Counter :: "'a list \<Rightarrow> ('a \<times> nat) list" where
  "Counter xs = foldl (\<lambda>acc x. counter_add x acc) [] xs"

text \<open>
  \<open>Counter.most_common()\<close> is \<open>sorted(self.items(), key=itemgetter(1), reverse=True)\<close>,
  a stable sort by descending count; \<open>most_common(n)\<close> is its first \<open>n\<close> items.
\<close>

definition most_common :: "('a \<times> nat) list \<Rightarrow> ('a \<times> nat) list" where
  "most_common items = sort_key (\<lambda>kv. - int (snd kv)) items"

definition most_common_n :: "nat \<Rightarrow> ('a \<times> nat) list \<Rightarrow> ('a \<times> nat) list" where
  "most_common_n n items = take n (most_common items)"

definition analyze_pos ::
  "nltk \<Rightarrow> string \<Rightarrow> (string \<times> string) list \<times> (string \<times> nat) list" where
  "analyze_pos lib text =
     (let tokens = word_tokenize lib text;
          pos_tags = pos_tag lib tokens;
          pos_counts = Counter (map snd pos_tags)
      in (pos_tags, pos_counts))"

section \<open>The report\<close>

definition POS_DESCRIPTIONS :: "(string \<times> string) list" where
  "POS_DESCRIPTIONS =
     [(''NN'', ''Noun, singular''),
      (''NNS'', ''Noun, plural''),
      (''NNP'', ''Proper noun, singular''),
      (''NNPS'', ''Proper noun, plural''),
      (''VB'', ''Verb, base form''),
      (''VBD'', ''Verb, past tense''),
      (''VBG'', ''Verb, gerund/present participle''),
      (''VBN'', ''Verb, past participle''),
      (''VBP'', ''Verb, non-3rd person singular present''),
      (''VBZ'', ''Verb, 3rd person singular present''),
      (''JJ'', ''Adjective''),
      (''JJR'', ''Adjective, comparative''),
      (''JJS'', ''Adjective, superlative''),
      (''RB'', ''Adverb''),
      (''RBR'', ''Adverb, comparative''),
      (''RBS'', ''Adverb, superlative''),
      (''PRP'', ''Personal pronoun''),
      (''PRP$'', ''Possessive pronoun''),
      (''DT'', ''Determiner''),
      (''IN'', ''Preposition/subordinating conjunction''),
      (''CC'', ''Coordinating conjunction''),
      (''CD'', ''Cardinal number''),
      (''TO'', ''to''),
      (''MD'', ''Modal'')]"

text \<open>\<open>POS_DESCRIPTIONS.get(tag, 'Other')\<close>.\<close>

definition describe :: "string \<Rightarrow> string" where
  "describe tag = (case map_of POS_DESCRIPTIONS tag of Some d \<Rightarrow> d | None \<Rightarrow> ''Other'')"

text \<open>
  The loop that fills \<open>pos_examples\<close>: a tag new to the dict gets the empty list, and
  the word is appended while the tag's list has fewer than 5 words.
\<close>

fun collect_examples ::
  "(string \<times> string) list \<Rightarrow> (string \<rightharpoonup> string list) \<Rightarrow> (string \<rightharpoonup> string list)" where
  "collect_examples [] pos_examples = pos_examples"
| "collect_examples ((word, tag) # rest) pos_examples =
     (let cur = (case pos_examples tag of None \<Rightarrow> [] | Some ws \<Rightarrow> ws)
      in collect_examples rest
           (pos_examples(tag \<mapsto> (if length cur < 5 then cur @ [word] else cur))))"

text \<open>The lines written for \<open>pos_counts.most_common(10)\<close>, one for each tag.\<close>

definition sample_line :: "(string \<rightharpoonup> string list) \<Rightarrow> string \<times> nat \<Rightarrow> string" where
  "sample_line pos_examples tag =
     (let tag_name = fst tag
      in ''**'' @ tag_name @ ''** ('' @ describe tag_name @ ''): '' @
         join '', '' (case pos_examples tag_name of Some ws \<Rightarrow> ws | None \<Rightarrow> []))"

definition sample_lines ::
  "(string \<times> string) list \<Rightarrow> (string \<times> nat) list \<Rightarrow> string list" where
  "sample_lines pos_tags pos_counts =
     (let pos_examples = collect_examples pos_tags Map.empty
      in map (sample_line pos_examples) (most_common_n 10 pos_counts))"

text \<open>\<open>xs[0]\<close>, which raises \<open>IndexError\<close> on the empty list.\<close>

definition first_item :: "'a list \<Rightarrow> py_error + 'a" where
  "first_item xs = (case xs of [] \<Rightarrow> Inl IndexError | x # rest \<Rightarrow> Inr x)"

text \<open>
  What a run of the page does, in order: the calls of the display library (labels
  without their leading pictograph) and the call of \<open>analyze_pos\<close>.
\<close>

datatype metric_value = MInt nat | MStr string

datatype effect =
    StWarning string
  | StError string
  | StSuccess string
  | StInfo string
  | StSpinner string
  | StExpander string
  | StWrite string
  | StSubheader string
  | StMetric string metric_value
  | StDataframe "(string \<times> string \<times> nat) list"
  | StBarChart "(string \<times> nat) list"
  | CallAnalyzePos string

text \<open>
  The branch taken when \<open>article_text\<close> is a non-empty string. The second component is
  the exception that ends the run, if one is raised; the effects before it stay.
\<close>

definition report :: "nltk \<Rightarrow> string \<Rightarrow> effect list \<times> py_error option" where
  "report lib article_text =
     (let (pos_tags, pos_counts) = analyze_pos lib article_text;
          df = map (\<lambda>(tag, count). (tag, describe tag, count)) (most_common pos_counts);
          shown =
            [StSuccess ''Article fetched successfully!'',
             StExpander ''Article Text Preview (first 500 characters)'',
             StWrite (take 500 article_text @ ''...''),
             StInfo (''**Total characters:** '' @ str_nat (length article_text)),
             StSpinner ''Analyzing parts of speech...'',
             CallAnalyzePos article_text,
             StSubheader ''Parts of Speech Analysis'',
             StMetric ''Total Words'' (MInt (length pos_tags)),
             StMetric ''Unique POS Tags'' (MInt (length pos_counts))]
      in case first_item (most_common_n 1 pos_counts) of
           Inl e \<Rightarrow> (shown, Some e)
         | Inr best \<Rightarrow>
             (shown @
              [StMetric ''Most Common Tag'' (MStr (fst best)),
               StDataframe df,
               StSubheader ''Top 10 Most Frequent POS Tags'',
               StBarChart (map (\<lambda>(tag, d, count). (tag, count)) (take 10 df)),
               StExpander ''Sample Words by POS Tag''] @
              map StWrite (sample_lines pos_tags pos_counts),
              None))"

text \<open>The block under \<open>if st.button("Analyze Article", type="primary")\<close>.\<close>

definition main_block :: "nltk \<Rightarrow> web \<Rightarrow> string \<Rightarrow> effect list \<times> py_error option" where
  "main_block lib w url =
     (if url \<noteq> [] then
        (let result = fetch_article w url
         in if isinstance_tuple result then
              (case result of
                 PyTuple [article_text, error] \<Rightarrow>
                   ([StSpinner ''Fetching article...'',
                     StError (''Error fetching article: '' @ py_str error)], None)
               | _ \<Rightarrow> ([StSpinner ''Fetching article...''], Some ValueError))
            else
              (case result of
                 PyStr article_text \<Rightarrow>
                   (if article_text \<noteq> [] then
                      (let (shown, exn) = report lib article_text
                       in (StSpinner ''Fetching article...'' # shown, exn))
                    else
                      ([StSpinner ''Fetching article...'',
                        StError ''Could not extract text from the article. Please try a different URL.''],
                       None))
               | _ \<Rightarrow>
                   ([StSpinner ''Fetching article...'',
                     StError ''Could not extract text from the article. Please try a different URL.''],
                    None)))
      else ([StWarning ''Please enter a valid URL''], None))"

section \<open>Stand-ins for the tokenizer and the tagger\<close>

text \<open>
  For evaluating the program on concrete inputs: a tokenizer that splits at white space,
  as \<open>str.split()\<close> does, and a tagger that knows a few words and calls every other
  one a noun.
\<close>

fun split_ws :: "string \<Rightarrow> string \<Rightarrow> string list" where
  "split_ws cur [] = (if cur = [] then [] else [cur])"
| "split_ws cur (c # cs) =
     (if isspace c then (if cur = [] then split_ws [] cs else cur # split_ws [] cs)
      else split_ws (cur @ [c]) cs)"

definition toy_tag :: "string \<Rightarrow> string" where
  "toy_tag word =
     (if word \<in> set [''The'', ''the'', ''a''] then ''DT''
      else if word \<in> set [''sat'', ''ran''] then ''VBD''
      else if word = ''fast'' then ''RB''
      else ''NN'')"

definition toy_nltk :: nltk where
  "toy_nltk = \<lparr> word_tokenize = split_ws [], tag_at = (\<lambda>tokens i. toy_tag (tokens ! i)) \<rparr>"

section \<open>Notions the properties are stated with\<close>

text \<open>The position at which a value is first met in a list (its length, if it never is).\<close>

definition first_index :: "'a list \<Rightarrow> 'a \<Rightarrow> nat" where
  "first_index xs x = length (takeWhile (\<lambda>y. y \<noteq> x) xs)"

text \<open>
  The paragraph fallback in the words of the specification: the text of every paragraph
  element (all its fragments, as they stand), stripped, the results joined by single
  spaces.
\<close>

definition spec_paragraph_fallback :: "soup \<Rightarrow> string" where
  "spec_paragraph_fallback sp =
     join '' '' (map (\<lambda>p. strip (get_text [] False p)) (find_all ''p'' sp))"

text \<open>A response with status 200 whose body the parser turns into the given tree, at every URL.\<close>

definition serves :: "soup \<Rightarrow> web" where
  "serves doc =
     (\<lambda>url. Returns \<lparr> status_code = 200, reason = ''OK'', content = Document doc \<rparr>)"

text \<open>A response with status 200 whose body the parser rejects with the given message.\<close>

definition serves_rejected :: "string \<Rightarrow> web" where
  "serves_rejected msg =
     (\<lambda>url. Returns \<lparr> status_code = 200, reason = ''OK'', content = Malformed msg \<rparr>)"

text \<open>A response with the given status and reason and an empty body, at every URL.\<close>

definition answers :: "nat \<Rightarrow> string \<Rightarrow> web" where
  "answers code phrase =
     (\<lambda>url. Returns \<lparr> status_code = code, reason = phrase, content = Document [] \<rparr>)"


section \<open>The counter\<close>

lemma Counter_snoc: "Counter (xs @ [x]) = counter_add x (Counter xs)"
  by (simp add: Counter_def)

lemma Counter_Nil: "Counter [] = []"
  by (simp add: Counter_def)

lemma counter_add_keys:
  "map fst (counter_add x kvs) = (if x \<in> set (map fst kvs) then map fst kvs else map fst kvs @ [x])"
  by (induction kvs) force+

lemma counter_add_sum: "sum_list (map snd (counter_add x kvs)) = Suc (sum_list (map snd kvs))"
  by (induction kvs) auto

lemma counter_add_map_of:
  "map_of (counter_add x kvs) = (map_of kvs)(x \<mapsto> (case map_of kvs x of None \<Rightarrow> 1 | Some c \<Rightarrow> c + 1))"
  by (induction kvs) (auto simp: fun_eq_iff)

lemma Counter_sum: "sum_list (map snd (Counter xs)) = length xs"
  by (induction xs rule: rev_induct) (simp_all add: Counter_Nil Counter_snoc counter_add_sum)

lemma Counter_keys: "fst ` set (Counter xs) = set xs"
proof (induction xs rule: rev_induct)
  case Nil
  show ?case by (simp add: Counter_Nil)
next
  case (snoc x xs)
  have "fst ` set (Counter (xs @ [x])) = set (map fst (counter_add x (Counter xs)))"
    by (simp add: Counter_snoc)
  also have "\<dots> = insert x (set xs)"
    using snoc.IH by (auto simp: counter_add_keys split: if_splits)
  finally show ?case by simp
qed

lemma Counter_distinct: "distinct (map fst (Counter xs))"
proof (induction xs rule: rev_induct)
  case Nil
  show ?case by (simp add: Counter_Nil)
next
  case (snoc x xs)
  then show ?case by (simp add: Counter_snoc counter_add_keys)
qed

lemma Counter_map_of:
  "map_of (Counter xs) k = (if k \<in> set xs then Some (count_list xs k) else None)"
proof (induction xs arbitrary: k rule: rev_induct)
  case Nil
  show ?case by (simp add: Counter_Nil)
next
  case (snoc x xs)
  show ?case
  proof (cases "x \<in> set xs")
    case True
    with snoc show ?thesis by (simp add: Counter_snoc counter_add_map_of)
  next
    case False
    then have "count_list xs x = 0" by (simp add: count_list_0_iff)
    with False snoc show ?thesis by (simp add: Counter_snoc counter_add_map_of)
  qed
qed

lemma Counter_entry:
  assumes "(k, c) \<in> set (Counter xs)"
  shows "k \<in> set xs \<and> c = count_list xs k \<and> 0 < c"
proof -
  have "map_of (Counter xs) k = Some c"
    using assms by (simp add: map_of_eq_Some_iff [OF Counter_distinct])
  then have "k \<in> set xs" and "c = count_list xs k"
    by (auto simp: Counter_map_of split: if_splits)
  moreover from this have "0 < c"
    using count_list_0_iff [of xs k] by auto
  ultimately show ?thesis by simp
qed

lemma pos_tag_length: "length (pos_tag lib tokens) = length tokens"
  by (simp add: pos_tag_def)

lemma pos_tag_words: "map fst (pos_tag lib tokens) = tokens"
  by (simp add: pos_tag_def)

section \<open>The frequency mapping is derived exactly from the tagged sequence\<close>

text \<open>
  Claim C1. For every text, the counts of the frequency mapping add up to the number of
  (word, tag) pairs, which is the number of tokens, the words of the pairs being the
  tokens in order; every tag of the mapping is the tag of some pair, its count is the
  number of pairs with that tag and is not 0; and every tag of a pair is in the mapping
  with a count of at least 1.
\<close>

theorem tag_frequency_exact:
  "sum_list (map snd (snd (analyze_pos lib text))) = length (fst (analyze_pos lib text))
   \<and> length (fst (analyze_pos lib text)) = length (word_tokenize lib text)
   \<and> map fst (fst (analyze_pos lib text)) = word_tokenize lib text
   \<and> (\<forall>(tag, count) \<in> set (snd (analyze_pos lib text)).
        tag \<in> snd ` set (fst (analyze_pos lib text)) \<and> count \<noteq> 0
        \<and> count = length (filter (\<lambda>p. snd p = tag) (fst (analyze_pos lib text))))
   \<and> (\<forall>tag \<in> snd ` set (fst (analyze_pos lib text)).
        \<exists>count. (tag, count) \<in> set (snd (analyze_pos lib text)) \<and> 1 \<le> count)"
proof -
  define pts where "pts = pos_tag lib (word_tokenize lib text)"
  have A: "analyze_pos lib text = (pts, Counter (map snd pts))"
    by (simp add: analyze_pos_def pts_def Let_def)
  have cnt: "count_list (map snd pts) t = length (filter (\<lambda>p. snd p = t) pts)" for t
    by (induction pts) auto
  have 1: "sum_list (map snd (Counter (map snd pts))) = length pts"
    by (simp add: Counter_sum)
  have 2: "length pts = length (word_tokenize lib text)"
    by (simp add: pts_def pos_tag_length)
  have 3: "map fst pts = word_tokenize lib text"
    by (simp add: pts_def pos_tag_words)
  have 4: "\<forall>(tag, count) \<in> set (Counter (map snd pts)).
        tag \<in> snd ` set pts \<and> count \<noteq> 0 \<and> count = length (filter (\<lambda>p. snd p = tag) pts)"
    using Counter_entry [of _ _ "map snd pts"] by (auto simp: cnt)
  have 5: "\<forall>tag \<in> snd ` set pts. \<exists>count. (tag, count) \<in> set (Counter (map snd pts)) \<and> 1 \<le> count"
  proof
    fix tag assume "tag \<in> snd ` set pts"
    then have "tag \<in> fst ` set (Counter (map snd pts))"
      by (simp add: Counter_keys)
    then obtain c where c: "(tag, c) \<in> set (Counter (map snd pts))" by force
    with Counter_entry [OF c] show "\<exists>count. (tag, count) \<in> set (Counter (map snd pts)) \<and> 1 \<le> count"
      by (intro exI [of _ c]) simp
  qed
  show ?thesis unfolding A fst_conv snd_conv using 1 2 3 4 5 by blast
qed

theorem tag_frequency_exact_witness:
  "sum_list (map snd (snd (analyze_pos toy_nltk ''The cat sat. The dog ran fast.''))) = 7
   \<and> length (word_tokenize toy_nltk ''The cat sat. The dog ran fast.'') = 7
   \<and> (''DT'', 2) \<in> set (snd (analyze_pos toy_nltk ''The cat sat. The dog ran fast.''))
   \<and> ''DT'' \<in> snd ` set (fst (analyze_pos toy_nltk ''The cat sat. The dog ran fast.''))"
proof -
  have T: "word_tokenize toy_nltk ''The cat sat. The dog ran fast.''
           = [''The'', ''cat'', ''sat.'', ''The'', ''dog'', ''ran'', ''fast.'']"
    by (simp add: toy_nltk_def isspace_def)
  have A: "analyze_pos toy_nltk ''The cat sat. The dog ran fast.''
     = ([(''The'', ''DT''), (''cat'', ''NN''), (''sat.'', ''NN''), (''The'', ''DT''),
         (''dog'', ''NN''), (''ran'', ''VBD''), (''fast.'', ''NN'')],
        [(''DT'', 2), (''NN'', 4), (''VBD'', 1)])"
    unfolding analyze_pos_def Let_def T
    by (simp add: pos_tag_def toy_nltk_def toy_tag_def Counter_def upt_rec)
  from tag_frequency_exact [of toy_nltk "''The cat sat. The dog ran fast.''"]
  show ?thesis unfolding A T by simp
qed

section \<open>The ranking\<close>

lemma first_index_snoc_old: "y \<in> set xs \<Longrightarrow> first_index (xs @ [x]) y = first_index xs y"
  by (simp add: first_index_def takeWhile_append1)

lemma first_index_snoc_new: "x \<notin> set xs \<Longrightarrow> first_index (xs @ [x]) x = length xs"
  unfolding first_index_def by (induction xs) auto

lemma first_index_less: "y \<in> set xs \<Longrightarrow> first_index xs y < length xs"
  unfolding first_index_def by (induction xs) auto

lemma Counter_first_seen_order:
  "sorted_wrt (\<lambda>a b. first_index xs a < first_index xs b) (map fst (Counter xs))"
proof (induction xs rule: rev_induct)
  case Nil
  show ?case by (simp add: Counter_Nil)
next
  case (snoc x xs)
  have keys: "set (map fst (Counter xs)) = set xs"
    using Counter_keys [of xs] by simp
  have old: "sorted_wrt (\<lambda>a b. first_index (xs @ [x]) a < first_index (xs @ [x]) b)
               (map fst (Counter xs))"
    using snoc.IH
    by (rule sorted_wrt_mono_rel [rotated]) (simp add: Counter_keys first_index_snoc_old)
  show ?case
  proof (cases "x \<in> set xs")
    case True
    with old keys show ?thesis
      by (simp add: Counter_snoc counter_add_keys)
  next
    case False
    have "\<forall>a \<in> set xs. first_index (xs @ [x]) a < first_index (xs @ [x]) x"
      using False by (simp add: first_index_snoc_old first_index_snoc_new first_index_less)
    with old keys False show ?thesis
      by (simp add: Counter_snoc counter_add_keys sorted_wrt_append)
  qed
qed

lemma insort_key_keeps_ties:
  assumes "sorted_wrt (\<lambda>a b. f a = f b \<longrightarrow> R a b) ys"
    and "\<forall>y \<in> set ys. f x = f y \<longrightarrow> R x y"
  shows "sorted_wrt (\<lambda>a b. f a = f b \<longrightarrow> R a b) (insort_key f x ys)"
  using assms
proof (induction ys)
  case Nil
  then show ?case by simp
next
  case (Cons y ys)
  show ?case
  proof (cases "f x \<le> f y")
    case True
    with Cons.prems show ?thesis by simp
  next
    case False
    then have "f y \<noteq> f x" by auto
    with False Cons show ?thesis
      by (auto simp: set_insort_key)
  qed
qed

lemma sort_key_keeps_ties:
  "sorted_wrt R xs \<Longrightarrow> sorted_wrt (\<lambda>a b. f a = f b \<longrightarrow> R a b) (sort_key f xs)"
proof (induction xs)
  case Nil
  show ?case by simp
next
  case (Cons x xs)
  then show ?case
    by (simp add: insort_key_keeps_ties)
qed

lemma most_common_descending: "sorted_wrt (\<lambda>a b. snd b \<le> snd a) (most_common items)"
proof -
  have "sorted (map (\<lambda>kv. - int (snd kv)) (most_common items))"
    unfolding most_common_def by (rule sorted_sort_key)
  then show ?thesis by (simp add: sorted_map)
qed

lemma most_common_ties:
  assumes "sorted_wrt (\<lambda>a b. R (fst a) (fst b)) items"
  shows "sorted_wrt (\<lambda>a b. snd a = snd b \<longrightarrow> R (fst a) (fst b)) (most_common items)"
proof -
  have "sorted_wrt (\<lambda>a b. - int (snd a) = - int (snd b) \<longrightarrow> R (fst a) (fst b)) (most_common items)"
    unfolding most_common_def using assms by (rule sort_key_keeps_ties)
  then show ?thesis by simp
qed

text \<open>
  Claim C6. The ranking of the tags of a tagged sequence, \<open>most_common\<close> of its counter,
  is in descending order of count; of two ranked tags with equal counts, the one ranked
  first is the one first met in the sequence; the ranking holds exactly the items of the
  counter, each tag once with its number of occurrences; and the top \<open>n\<close> are its first
  \<open>n\<close> items. Being a function of the sequence, it is the same for the same sequence.
\<close>

theorem ranking_descending_stable:
  fixes tags :: "'a list"
  defines "ranked \<equiv> most_common (Counter tags)"
  shows "sorted_wrt (\<lambda>a b. snd b \<le> snd a) ranked
   \<and> (\<forall>i j. i < j \<and> j < length ranked \<and> snd (ranked ! i) = snd (ranked ! j)
        \<longrightarrow> first_index tags (fst (ranked ! i)) < first_index tags (fst (ranked ! j)))
   \<and> set ranked = set (Counter tags)
   \<and> distinct (map fst ranked)
   \<and> (\<forall>(tag, count) \<in> set ranked. count = count_list tags tag)
   \<and> (\<forall>n. most_common_n n (Counter tags) = take n ranked)"
proof -
  have 1: "sorted_wrt (\<lambda>a b. snd b \<le> snd a) ranked"
    unfolding ranked_def by (rule most_common_descending)
  have "sorted_wrt (\<lambda>a b. first_index tags (fst a) < first_index tags (fst b)) (Counter tags)"
    using Counter_first_seen_order [of tags] by (simp add: sorted_wrt_map)
  then have "sorted_wrt (\<lambda>a b. snd a = snd b \<longrightarrow>
               first_index tags (fst a) < first_index tags (fst b)) ranked"
    unfolding ranked_def by (rule most_common_ties)
  then have 2: "\<forall>i j. i < j \<and> j < length ranked \<and> snd (ranked ! i) = snd (ranked ! j)
        \<longrightarrow> first_index tags (fst (ranked ! i)) < first_index tags (fst (ranked ! j))"
    by (simp add: sorted_wrt_iff_nth_less)
  have 3: "set ranked = set (Counter tags)"
    by (simp add: ranked_def most_common_def)
  have 4: "distinct (map fst ranked)"
    using Counter_distinct [of tags]
    by (simp add: ranked_def most_common_def distinct_map)
  have 5: "\<forall>(tag, count) \<in> set ranked. count = count_list tags tag"
    unfolding 3 using Counter_entry [of _ _ tags] by auto
  have 6: "\<forall>n. most_common_n n (Counter tags) = take n ranked"
    by (simp add: most_common_n_def ranked_def)
  from 1 2 3 4 5 6 show ?thesis by blast
qed

theorem ranking_descending_stable_witness:
  "most_common (Counter [''NN'', ''DT'', ''VB'', ''VB'', ''DT'', ''JJ''])
     = [(''DT'', 2), (''VB'', 2), (''NN'', 1), (''JJ'', 1)]
   \<and> first_index [''NN'', ''DT'', ''VB'', ''VB'', ''DT'', ''JJ''] ''DT''
     < first_index [''NN'', ''DT'', ''VB'', ''VB'', ''DT'', ''JJ''] ''VB''
   \<and> first_index [''NN'', ''DT'', ''VB'', ''VB'', ''DT'', ''JJ''] ''NN''
     < first_index [''NN'', ''DT'', ''VB'', ''VB'', ''DT'', ''JJ''] ''JJ''"
proof -
  have R: "most_common (Counter [''NN'', ''DT'', ''VB'', ''VB'', ''DT'', ''JJ''])
     = [(''DT'', 2), (''VB'', 2), (''NN'', 1), (''JJ'', 1)]"
    by (simp add: Counter_def most_common_def)
  have "\<forall>i j. i < j \<and> j < 4 \<and>
          snd ([(''DT'', 2::nat), (''VB'', 2), (''NN'', 1), (''JJ'', 1)] ! i)
            = snd ([(''DT'', 2), (''VB'', 2), (''NN'', 1), (''JJ'', 1)] ! j)
        \<longrightarrow> first_index [''NN'', ''DT'', ''VB'', ''VB'', ''DT'', ''JJ'']
              (fst ([(''DT'', 2::nat), (''VB'', 2), (''NN'', 1), (''JJ'', 1)] ! i))
          < first_index [''NN'', ''DT'', ''VB'', ''VB'', ''DT'', ''JJ'']
              (fst ([(''DT'', 2::nat), (''VB'', 2), (''NN'', 1), (''JJ'', 1)] ! j))"
    using ranking_descending_stable [of "[''NN'', ''DT'', ''VB'', ''VB'', ''DT'', ''JJ'']"]
    unfolding R by simp
  from this [rule_format, of 0 1] this [rule_format, of 2 3] R
  show ?thesis by simp
qed

section \<open>The example words\<close>

lemma collect_examples_get:
  "(case collect_examples pts m t of None \<Rightarrow> [] | Some ws \<Rightarrow> ws)
     = (let cur = (case m t of None \<Rightarrow> [] | Some ws \<Rightarrow> ws)
        in cur @ take (5 - length cur) (map fst (filter (\<lambda>p. snd p = t) pts)))"
proof (induction pts arbitrary: m)
  case Nil
  show ?case by (simp add: Let_def)
next
  case (Cons p pts)
  obtain word tag where p: "p = (word, tag)" by (cases p)
  show ?case
  proof (cases "tag = t")
    case True
    then show ?thesis
      unfolding p by (simp add: Cons.IH Let_def take_Cons' split: option.splits)
  next
    case False
    then show ?thesis
      unfolding p by (simp add: Cons.IH Let_def)
  qed
qed

lemma collect_examples_dom:
  "dom (collect_examples pts m) = dom m \<union> snd ` set pts"
proof (induction pts arbitrary: m)
  case Nil
  show ?case by simp
next
  case (Cons p pts)
  obtain word tag where p: "p = (word, tag)" by (cases p)
  show ?case
    unfolding p collect_examples.simps Let_def Cons.IH by auto
qed

lemma collect_examples_empty:
  "collect_examples pts Map.empty t =
     (if t \<in> snd ` set pts then Some (take 5 (map fst (filter (\<lambda>p. snd p = t) pts))) else None)"
proof (cases "t \<in> snd ` set pts")
  case True
  then have "t \<in> dom (collect_examples pts Map.empty)"
    by (simp add: collect_examples_dom)
  then obtain ws where ws: "collect_examples pts Map.empty t = Some ws" by auto
  with collect_examples_get [of pts Map.empty t] True show ?thesis by simp
next
  case False
  then have "t \<notin> dom (collect_examples pts Map.empty)"
    by (simp add: collect_examples_dom)
  with False show ?thesis by auto
qed

text \<open>
  Claim C7. For every tag of the tagged sequence, its example list is the words of the
  first 5 pairs with that tag, in the order of the sequence (all of them when there are
  fewer than 5); a word met again counts again, so the list may repeat a word. The lines
  written are those of the first 10 ranked tags, each with its own example list, and
  they end the report whenever the text has a token.
\<close>

theorem example_words_first_five:
  "(\<forall>tag \<in> snd ` set pos_tags.
      collect_examples pos_tags Map.empty tag
        = Some (take 5 (map fst (filter (\<lambda>p. snd p = tag) pos_tags))))
   \<and> sample_lines pos_tags pos_counts
        = map (\<lambda>tag. ''**'' @ fst tag @ ''** ('' @ describe (fst tag) @ ''): '' @
                 join '', '' (take 5 (map fst (filter (\<lambda>p. snd p = fst tag) pos_tags))))
            (take 10 (most_common pos_counts))
   \<and> (word_tokenize lib text \<noteq> [] \<longrightarrow>
        (\<exists>before. fst (report lib text)
           = before @ StExpander ''Sample Words by POS Tag'' #
             map StWrite (sample_lines (fst (analyze_pos lib text)) (snd (analyze_pos lib text)))))"
proof -
  have 1: "\<forall>tag \<in> snd ` set pos_tags.
      collect_examples pos_tags Map.empty tag
        = Some (take 5 (map fst (filter (\<lambda>p. snd p = tag) pos_tags)))"
    by (simp add: collect_examples_empty)
  have get: "(case collect_examples pos_tags Map.empty t of Some ws \<Rightarrow> ws | None \<Rightarrow> [])
               = take 5 (map fst (filter (\<lambda>p. snd p = t) pos_tags))" for t
    using collect_examples_get [of pos_tags Map.empty t] by (simp split: option.splits)
  have 2: "sample_lines pos_tags pos_counts
        = map (\<lambda>tag. ''**'' @ fst tag @ ''** ('' @ describe (fst tag) @ ''): '' @
                 join '', '' (take 5 (map fst (filter (\<lambda>p. snd p = fst tag) pos_tags))))
            (take 10 (most_common pos_counts))"
    unfolding sample_lines_def sample_line_def Let_def most_common_n_def get ..
  have 3: "\<exists>before. fst (report lib text)
           = before @ StExpander ''Sample Words by POS Tag'' #
             map StWrite (sample_lines (fst (analyze_pos lib text)) (snd (analyze_pos lib text)))"
    if ne: "word_tokenize lib text \<noteq> []"
  proof -
    obtain pts cnts where A: "analyze_pos lib text = (pts, cnts)" by (cases "analyze_pos lib text")
    have "length pts = length (word_tokenize lib text)"
      using A by (auto simp: analyze_pos_def Let_def pos_tag_length)
    with ne have "pts \<noteq> []" by auto
    moreover have "cnts = Counter (map snd pts)"
      using A by (auto simp: analyze_pos_def Let_def)
    ultimately have "cnts \<noteq> []"
      using Counter_keys [of "map snd pts"] by auto
    then have "most_common cnts \<noteq> []"
      by (metis most_common_def length_sort length_0_conv)
    then obtain b bs where "most_common cnts = b # bs" by (cases "most_common cnts") auto
    then have F: "first_item (most_common_n 1 cnts) = Inr b"
      by (simp add: first_item_def most_common_n_def)
    show ?thesis
      unfolding report_def A Let_def prod.case F sum.case fst_conv snd_conv
      by (rule exI [of _ "_ @ [_, _, _, _]"]) simp
  qed
  from 1 2 3 show ?thesis by blast
qed

theorem example_words_first_five_witness:
  "collect_examples
     [(''the'', ''DT''), (''cat'', ''NN''), (''the'', ''DT''), (''a'', ''DT''), (''the'', ''DT''),
      (''the'', ''DT''), (''the'', ''DT''), (''a'', ''DT'')] Map.empty ''DT''
     = Some [''the'', ''the'', ''a'', ''the'', ''the'']
   \<and> collect_examples
     [(''the'', ''DT''), (''cat'', ''NN''), (''the'', ''DT''), (''a'', ''DT''), (''the'', ''DT''),
      (''the'', ''DT''), (''the'', ''DT''), (''a'', ''DT'')] Map.empty ''NN''
     = Some [''cat'']"
proof -
  let ?pts = "[(''the'', ''DT''), (''cat'', ''NN''), (''the'', ''DT''), (''a'', ''DT''),
      (''the'', ''DT''), (''the'', ''DT''), (''the'', ''DT''), (''a'', ''DT'')]"
  have "\<forall>tag \<in> snd ` set ?pts. collect_examples ?pts Map.empty tag
        = Some (take 5 (map fst (filter (\<lambda>p. snd p = tag) ?pts)))"
    using example_words_first_five [of ?pts "[]" toy_nltk "''''"] by blast
  then show ?thesis by simp
qed

section \<open>The extractor\<close>

lemma matches_head:
  "matches sel (Element nm cls kids) = matches sel (Element nm cls kids')"
  by (cases sel) simp_all

lemma decompose_all_elements:
  "e \<in> set (concat (map elements (decompose_all names n)))
     \<Longrightarrow> \<exists>e' \<in> set (elements n). \<forall>sel. matches sel e' = matches sel e"
proof (induction n arbitrary: e)
  case (TextNode s)
  then show ?case by simp
next
  case (Element nm cls kids)
  show ?case
  proof (cases "nm \<in> set names")
    case True
    with Element.prems show ?thesis by simp
  next
    case False
    let ?kids' = "concat (map (decompose_all names) kids)"
    from Element.prems False
    consider "e = Element nm cls ?kids'" | "e \<in> set (concat (map elements ?kids'))"
      by auto
    then show ?thesis
    proof cases
      case 1
      have "\<forall>sel. matches sel (Element nm cls kids) = matches sel e"
        unfolding 1 by (simp add: matches_head [of _ nm cls kids ?kids'])
      then show ?thesis by auto
    next
      case 2
      then obtain k where k: "k \<in> set kids"
        and e: "e \<in> set (concat (map elements (decompose_all names k)))"
        by auto
      from Element.IH [OF k e] obtain e' where "e' \<in> set (elements k)"
        and "\<forall>sel. matches sel e' = matches sel e" by blast
      with k show ?thesis by auto
    qed
  qed
qed

lemma remove_noise_elements:
  assumes "e \<in> set (soup_elements (remove_noise sp))"
  shows "\<exists>e' \<in> set (soup_elements sp). \<forall>sel. matches sel e' = matches sel e"
proof -
  from assms obtain n where n: "n \<in> set sp"
    and e: "e \<in> set (concat (map elements (decompose_all noise_tags n)))"
    by (auto simp: soup_elements_def remove_noise_def)
  from decompose_all_elements [OF e] n show ?thesis
    by (auto simp: soup_elements_def)
qed

lemma select_one_remove_noise:
  "select_one sel sp = None \<Longrightarrow> select_one sel (remove_noise sp) = None"
  unfolding select_one_def find_None_iff
  using remove_noise_elements by blast

lemma find_all_remove_noise:
  "find_all t sp = [] \<Longrightarrow> find_all t (remove_noise sp) = []"
  unfolding find_all_def filter_empty_conv
  using remove_noise_elements by blast

lemma select_loop_none:
  "\<forall>sel \<in> set sels. select_one sel sp = None \<Longrightarrow> select_loop sels sp = []"
  by (induction sels) simp_all

lemma select_loop_first_match:
  "\<forall>s \<in> set pre. select_one s sp = None \<Longrightarrow> select_one sel sp = Some found
     \<Longrightarrow> select_loop (pre @ sel # post) sp = get_text '' '' True found"
  by (induction pre) simp_all




lemma fetch_body_raises: "w url = Raises ex \<Longrightarrow> fetch_body w url = Inl (str_request_exception ex)"
  by (simp add: fetch_body_def requests_get_def)

lemma fetch_body_status:
  "w url = Returns r \<Longrightarrow> 400 \<le> status_code r \<and> status_code r < 600
     \<Longrightarrow> fetch_body w url
           = Inl (str_nat (status_code r)
                  @ (if status_code r < 500 then '' Client Error: '' else '' Server Error: '')
                  @ reason r @ '' for url: '' @ url)"
  by (auto simp: fetch_body_def requests_get_def raise_for_status_def)

lemma fetch_body_rejected:
  "w url = Returns r \<Longrightarrow> \<not> (400 \<le> status_code r \<and> status_code r < 600)
     \<Longrightarrow> content r = Malformed msg \<Longrightarrow> fetch_body w url = Inl msg"
  by (auto simp: fetch_body_def requests_get_def raise_for_status_def BeautifulSoup_def)

lemma fetch_body_success:
  "w url = Returns r \<Longrightarrow> \<not> (400 \<le> status_code r \<and> status_code r < 600)
     \<Longrightarrow> content r = Document doc
     \<Longrightarrow> fetch_body w url = Inr (extract_text selectors (remove_noise doc))"
  by (auto simp: fetch_body_def requests_get_def raise_for_status_def BeautifulSoup_def)

lemma main_block_failure:
  "url \<noteq> [] \<Longrightarrow> fetch_body w url = Inl e
     \<Longrightarrow> main_block lib w url
           = ([StSpinner ''Fetching article...'', StError (''Error fetching article: '' @ e)], None)"
  by (simp add: main_block_def fetch_article_def)

lemma main_block_empty:
  "url \<noteq> [] \<Longrightarrow> fetch_body w url = Inr []
     \<Longrightarrow> main_block lib w url
           = ([StSpinner ''Fetching article...'',
               StError ''Could not extract text from the article. Please try a different URL.''],
              None)"
  by (simp add: main_block_def fetch_article_def)

lemma main_block_text:
  "url \<noteq> [] \<Longrightarrow> fetch_body w url = Inr article_text \<Longrightarrow> article_text \<noteq> []
     \<Longrightarrow> main_block lib w url
           = (StSpinner ''Fetching article...'' # fst (report lib article_text),
              snd (report lib article_text))"
  by (simp add: main_block_def fetch_article_def split_beta)

text \<open>
  Claim C4, amended. For every response that raises no error and whose body the parser
  turns into a document with no element matched by any of the selectors and no paragraph
  element, \<open>fetch_article\<close> returns the empty string, a string and not the failure
  tuple; it is the caller that finds the text empty and reports that no text could be
  extracted.
\<close>

theorem empty_extraction_is_text:
  assumes "w url = Returns r"
    and "\<not> (400 \<le> status_code r \<and> status_code r < 600)"
    and "content r = Document doc"
    and "\<forall>sel \<in> set selectors. select_one sel doc = None"
    and "find_all ''p'' doc = []"
  shows "fetch_article w url = PyStr []
    \<and> \<not> isinstance_tuple (fetch_article w url)
    \<and> (url \<noteq> [] \<longrightarrow>
         main_block lib w url
           = ([StSpinner ''Fetching article...'',
               StError ''Could not extract text from the article. Please try a different URL.''],
              None))"
proof -
  have "\<forall>sel \<in> set selectors. select_one sel (remove_noise doc) = None"
    using assms(4) by (simp add: select_one_remove_noise)
  then have "select_loop selectors (remove_noise doc) = []"
    by (rule select_loop_none)
  moreover have "find_all ''p'' (remove_noise doc) = []"
    using assms(5) by (rule find_all_remove_noise)
  ultimately have "extract_text selectors (remove_noise doc) = []"
    by (simp add: extract_text_def)
  with fetch_body_success [of w url r doc] assms(1,2,3) have B: "fetch_body w url = Inr []"
    by simp
  then have "fetch_article w url = PyStr []"
    by (simp add: fetch_article_def)
  with main_block_empty [of url w lib] B show ?thesis by simp
qed

theorem empty_extraction_is_text_witness:
  "fetch_article (serves [Element ''div'' [''sidebar''] [TextNode ''Menu'']]) ''http://example.com/a''
     = PyStr []
   \<and> main_block toy_nltk (serves [Element ''div'' [''sidebar''] [TextNode ''Menu'']])
       ''http://example.com/a''
     = ([StSpinner ''Fetching article...'',
         StError ''Could not extract text from the article. Please try a different URL.''],
        None)"
proof -
  let ?doc = "[Element ''div'' [''sidebar''] [TextNode ''Menu'']]"
  let ?r = "\<lparr> status_code = 200, reason = ''OK'', content = Document ?doc \<rparr>"
  have 1: "serves ?doc ''http://example.com/a'' = Returns ?r"
    by (simp add: serves_def)
  have 2: "\<not> (400 \<le> status_code ?r \<and> status_code ?r < 600)"
    by simp
  have 3: "content ?r = Document ?doc"
    by simp
  have 4: "\<forall>sel \<in> set selectors. select_one sel ?doc = None"
    by (simp add: selectors_def select_one_def soup_elements_def)
  have 5: "find_all ''p'' ?doc = []"
    by (simp add: find_all_def soup_elements_def)
  from empty_extraction_is_text
         [of "serves ?doc" "''http://example.com/a''" ?r ?doc toy_nltk, OF 1 2 3 4 5]
  show ?thesis by simp
qed

text \<open>
  Claim C4 as stated, for every document, fails for a body the parser rejects, such as
  \<open><![x[ ]]>\<close>: it has no element at all, so none that a selector matches and no
  paragraph, the parse is inside the \<open>try\<close>, and \<open>fetch_article\<close> returns the
  failure tuple with the message of the parser's exception.
\<close>

theorem rejected_markup_is_failure:
  "serves_rejected ''The markup you provided was rejected by the parser.'' ''http://example.com/a''
     = Returns \<lparr> status_code = 200, reason = ''OK'',
          content = Malformed ''The markup you provided was rejected by the parser.'' \<rparr>
   \<and> fetch_article (serves_rejected ''The markup you provided was rejected by the parser.'')
       ''http://example.com/a''
     = PyTuple [PyNone, PyStr ''The markup you provided was rejected by the parser.'']
   \<and> isinstance_tuple
       (fetch_article (serves_rejected ''The markup you provided was rejected by the parser.'')
          ''http://example.com/a'')
   \<and> fetch_article (serves_rejected ''The markup you provided was rejected by the parser.'')
       ''http://example.com/a'' \<noteq> PyStr []"
  by (simp add: serves_rejected_def fetch_article_def fetch_body_def requests_get_def
      raise_for_status_def BeautifulSoup_def)

section \<open>The caller\<close>

lemma fetch_body_cases:
  "isl (fetch_body w url) \<longleftrightarrow>
     (\<exists>ex. w url = Raises ex)
     \<or> (\<exists>r. w url = Returns r
            \<and> (400 \<le> status_code r \<and> status_code r < 600 \<or> (\<exists>msg. content r = Malformed msg)))"
proof (cases "w url")
  case (Raises ex)
  then show ?thesis by (simp add: fetch_body_raises)
next
  case (Returns r)
  show ?thesis
  proof (cases "400 \<le> status_code r \<and> status_code r < 600")
    case True
    with Returns fetch_body_status [of w url r] show ?thesis by auto
  next
    case False
    show ?thesis
    proof (cases "content r")
      case (Malformed msg)
      with Returns False fetch_body_rejected [of w url r msg] show ?thesis by auto
    next
      case (Document doc)
      with Returns False fetch_body_success [of w url r doc] show ?thesis by auto
    qed
  qed
qed

lemma fetch_article_tuple_iff: "isinstance_tuple (fetch_article w url) \<longleftrightarrow> isl (fetch_body w url)"
  by (cases "fetch_body w url") (simp_all add: fetch_article_def)

lemma report_shows_no_error: "StError msg \<notin> set (fst (report lib article_text))"
  unfolding report_def Let_def
  by (auto split: prod.splits sum.splits)

lemma main_block_error_shown:
  assumes "url \<noteq> []"
  shows "(\<exists>msg. StError (''Error fetching article: '' @ msg) \<in> set (fst (main_block lib w url)))
           \<longleftrightarrow> isl (fetch_body w url)"
proof (cases "fetch_body w url")
  case (Inl e)
  with assms main_block_failure [of url w e lib] show ?thesis by auto
next
  case (Inr article_text)
  show ?thesis
  proof (cases "article_text = []")
    case True
    with Inr assms main_block_empty [of url w lib] show ?thesis by simp
  next
    case False
    with Inr assms main_block_text [of url w article_text lib] show ?thesis
      by (simp add: report_shows_no_error)
  qed
qed

lemma report_no_tokens:
  assumes "word_tokenize lib article_text = []"
  shows "snd (report lib article_text) = Some IndexError"
    and "StMetric ''Most Common Tag'' v \<notin> set (fst (report lib article_text))"
proof -
  have A: "analyze_pos lib article_text = ([], [])"
    using assms by (simp add: analyze_pos_def pos_tag_def Counter_def)
  have F: "first_item (most_common_n 1 ([] :: (string \<times> nat) list)) = Inl IndexError"
    by (simp add: first_item_def most_common_n_def most_common_def)
  show "snd (report lib article_text) = Some IndexError"
    unfolding report_def A Let_def prod.case F sum.case by simp
  show "StMetric ''Most Common Tag'' v \<notin> set (fst (report lib article_text))"
    unfolding report_def A Let_def prod.case F sum.case by simp
qed

lemma report_with_tokens:
  assumes "word_tokenize lib article_text \<noteq> []"
  shows "\<exists>best others. most_common (snd (analyze_pos lib article_text)) = best # others
           \<and> snd (report lib article_text) = None
           \<and> StMetric ''Most Common Tag'' (MStr (fst best)) \<in> set (fst (report lib article_text))"
proof -
  obtain pts cnts where A: "analyze_pos lib article_text = (pts, cnts)"
    by (cases "analyze_pos lib article_text")
  have "length pts = length (word_tokenize lib article_text)"
    using A by (auto simp: analyze_pos_def Let_def pos_tag_length)
  with assms have "pts \<noteq> []" by auto
  moreover have "cnts = Counter (map snd pts)"
    using A by (auto simp: analyze_pos_def Let_def)
  ultimately have "cnts \<noteq> []"
    using Counter_keys [of "map snd pts"] by auto
  then have "most_common cnts \<noteq> []"
    by (metis most_common_def length_sort length_0_conv)
  then obtain b bs where M: "most_common cnts = b # bs"
    by (cases "most_common cnts") auto
  then have F: "first_item (most_common_n 1 cnts) = Inr b"
    by (simp add: first_item_def most_common_n_def)
  have "snd (report lib article_text) = None"
    unfolding report_def A Let_def prod.case F sum.case by simp
  moreover have "StMetric ''Most Common Tag'' (MStr (fst b)) \<in> set (fst (report lib article_text))"
    unfolding report_def A Let_def prod.case F sum.case by simp
  ultimately show ?thesis
    using M by (simp add: A)
qed

text \<open>
  Claim C9. The metric of the most frequent tag takes the first item of
  \<open>most_common(1)\<close>. When the extracted text is not empty, so that the caller's test
  lets it through, but has no token, the run ends there with \<open>IndexError\<close> and the
  metric is never shown; when it has a token, the ranking is not empty, no exception is
  raised and the metric shows the tag ranked first.
\<close>

theorem most_common_tag_needs_a_token:
  "(url \<noteq> [] \<and> fetch_article w url = PyStr article_text \<and> article_text \<noteq> []
      \<and> word_tokenize lib article_text = []
      \<longrightarrow> snd (main_block lib w url) = Some IndexError
          \<and> (\<forall>v. StMetric ''Most Common Tag'' v \<notin> set (fst (main_block lib w url))))
   \<and> (url \<noteq> [] \<and> fetch_article w url = PyStr article_text \<and> article_text \<noteq> []
      \<and> word_tokenize lib article_text \<noteq> []
      \<longrightarrow> (\<exists>best others. most_common (snd (analyze_pos lib article_text)) = best # others
            \<and> snd (main_block lib w url) = None
            \<and> StMetric ''Most Common Tag'' (MStr (fst best)) \<in> set (fst (main_block lib w url))))"
proof (intro conjI impI)
  assume a: "url \<noteq> [] \<and> fetch_article w url = PyStr article_text \<and> article_text \<noteq> []
      \<and> word_tokenize lib article_text = []"
  then have B: "fetch_body w url = Inr article_text"
    by (auto simp: fetch_article_def split: sum.splits)
  from a have M: "main_block lib w url
           = (StSpinner ''Fetching article...'' # fst (report lib article_text),
              snd (report lib article_text))"
    using main_block_text [of url w article_text lib] B by simp
  from a show "snd (main_block lib w url) = Some IndexError"
    unfolding M by (simp add: report_no_tokens(1))
  from a show "\<forall>v. StMetric ''Most Common Tag'' v \<notin> set (fst (main_block lib w url))"
    unfolding M by (simp add: report_no_tokens(2))
next
  assume a: "url \<noteq> [] \<and> fetch_article w url = PyStr article_text \<and> article_text \<noteq> []
      \<and> word_tokenize lib article_text \<noteq> []"
  then have B: "fetch_body w url = Inr article_text"
    by (auto simp: fetch_article_def split: sum.splits)
  from a have M: "main_block lib w url
           = (StSpinner ''Fetching article...'' # fst (report lib article_text),
              snd (report lib article_text))"
    using main_block_text [of url w article_text lib] B by simp
  from a report_with_tokens [of lib article_text]
  show "\<exists>best others. most_common (snd (analyze_pos lib article_text)) = best # others
            \<and> snd (main_block lib w url) = None
            \<and> StMetric ''Most Common Tag'' (MStr (fst best)) \<in> set (fst (main_block lib w url))"
    unfolding M by auto
qed

theorem most_common_tag_needs_a_token_witness:
  "fetch_article (serves [Element ''p'' [] [], Element ''p'' [] []]) ''http://example.com/a''
     = PyStr '' ''
   \<and> word_tokenize toy_nltk '' '' = []
   \<and> snd (main_block toy_nltk (serves [Element ''p'' [] [], Element ''p'' [] []])
            ''http://example.com/a'') = Some IndexError
   \<and> fetch_article (serves [Element ''p'' [] [TextNode ''The cat'']]) ''http://example.com/a''
     = PyStr ''The cat''
   \<and> snd (main_block toy_nltk (serves [Element ''p'' [] [TextNode ''The cat'']])
            ''http://example.com/a'') = None
   \<and> StMetric ''Most Common Tag'' (MStr ''DT'')
       \<in> set (fst (main_block toy_nltk (serves [Element ''p'' [] [TextNode ''The cat'']])
            ''http://example.com/a''))"
proof -
  let ?u = "''http://example.com/a''"
  let ?d1 = "[Element ''p'' [] [], Element ''p'' [] []]"
  let ?d2 = "[Element ''p'' [] [TextNode ''The cat'']]"
  have F1: "fetch_article (serves ?d1) ?u = PyStr '' ''"
    by code_simp
  have T1: "word_tokenize toy_nltk '' '' = []"
    by (simp add: toy_nltk_def isspace_def)
  have F2: "fetch_article (serves ?d2) ?u = PyStr ''The cat''"
    by code_simp
  have T2: "word_tokenize toy_nltk ''The cat'' = [''The'', ''cat'']"
    by (simp add: toy_nltk_def isspace_def)
  have R2: "most_common (snd (analyze_pos toy_nltk ''The cat'')) = [(''DT'', 1), (''NN'', 1)]"
    unfolding analyze_pos_def Let_def T2
    by (simp add: pos_tag_def toy_nltk_def toy_tag_def Counter_def most_common_def upt_rec)
  have W1: "snd (main_block toy_nltk (serves ?d1) ?u) = Some IndexError"
    using most_common_tag_needs_a_token [of ?u "serves ?d1" "'' ''" toy_nltk] F1 T1 by simp
  have W2: "snd (main_block toy_nltk (serves ?d2) ?u) = None
      \<and> StMetric ''Most Common Tag'' (MStr ''DT'') \<in> set (fst (main_block toy_nltk (serves ?d2) ?u))"
    using most_common_tag_needs_a_token [of ?u "serves ?d2" "''The cat''" toy_nltk] F2 T2 R2
    by auto
  from F1 T1 W1 F2 W2 show ?thesis by simp
qed

text \<open>
  Claim C10. For every URL, \<open>fetch_article\<close> returns the tuple \<open>(None, message)\<close> on
  each path through its \<open>try\<close> that raises, with the message of the exception raised:
  the request raises, the status is from 400 to 599, or the parser rejects the body. On
  the one path that raises nothing it returns a string, the text extracted from the
  parsed body. So \<open>isinstance(result, tuple)\<close> holds exactly of the failures, and the
  caller shows the fetch error exactly then.
\<close>

theorem fetch_result_shape:
  "(w url = Raises ex
      \<longrightarrow> fetch_article w url = PyTuple [PyNone, PyStr (str_request_exception ex)])
   \<and> (w url = Returns r \<and> 400 \<le> status_code r \<and> status_code r < 600
      \<longrightarrow> fetch_article w url
            = PyTuple [PyNone,
                PyStr (str_nat (status_code r)
                  @ (if status_code r < 500 then '' Client Error: '' else '' Server Error: '')
                  @ reason r @ '' for url: '' @ url)])
   \<and> (w url = Returns r \<and> \<not> (400 \<le> status_code r \<and> status_code r < 600)
        \<and> content r = Malformed msg
      \<longrightarrow> fetch_article w url = PyTuple [PyNone, PyStr msg])
   \<and> (w url = Returns r \<and> \<not> (400 \<le> status_code r \<and> status_code r < 600)
        \<and> content r = Document doc
      \<longrightarrow> fetch_article w url = PyStr (extract_text selectors (remove_noise doc)))
   \<and> (isinstance_tuple (fetch_article w url) \<longleftrightarrow>
        (\<exists>ex. w url = Raises ex)
        \<or> (\<exists>r. w url = Returns r
               \<and> (400 \<le> status_code r \<and> status_code r < 600
                   \<or> (\<exists>msg. content r = Malformed msg))))
   \<and> (url \<noteq> [] \<longrightarrow>
        ((\<exists>msg. StError (''Error fetching article: '' @ msg) \<in> set (fst (main_block lib w url)))
           \<longleftrightarrow> isinstance_tuple (fetch_article w url)))"
proof -
  have 1: "w url = Raises ex
      \<longrightarrow> fetch_article w url = PyTuple [PyNone, PyStr (str_request_exception ex)]"
    by (simp add: fetch_article_def fetch_body_raises)
  have 2: "w url = Returns r \<and> 400 \<le> status_code r \<and> status_code r < 600
      \<longrightarrow> fetch_article w url
            = PyTuple [PyNone,
                PyStr (str_nat (status_code r)
                  @ (if status_code r < 500 then '' Client Error: '' else '' Server Error: '')
                  @ reason r @ '' for url: '' @ url)]"
    using fetch_body_status [of w url r] by (simp add: fetch_article_def)
  have 3: "w url = Returns r \<and> \<not> (400 \<le> status_code r \<and> status_code r < 600)
        \<and> content r = Malformed msg
      \<longrightarrow> fetch_article w url = PyTuple [PyNone, PyStr msg]"
    using fetch_body_rejected [of w url r msg] by (simp add: fetch_article_def)
  have 4: "w url = Returns r \<and> \<not> (400 \<le> status_code r \<and> status_code r < 600)
        \<and> content r = Document doc
      \<longrightarrow> fetch_article w url = PyStr (extract_text selectors (remove_noise doc))"
    using fetch_body_success [of w url r doc] by (simp add: fetch_article_def)
  have 5: "isinstance_tuple (fetch_article w url) \<longleftrightarrow>
        (\<exists>ex. w url = Raises ex)
        \<or> (\<exists>r. w url = Returns r
               \<and> (400 \<le> status_code r \<and> status_code r < 600
                   \<or> (\<exists>msg. content r = Malformed msg)))"
    unfolding fetch_article_tuple_iff by (rule fetch_body_cases)
  have 6: "url \<noteq> [] \<longrightarrow>
        ((\<exists>msg. StError (''Error fetching article: '' @ msg) \<in> set (fst (main_block lib w url)))
           \<longleftrightarrow> isinstance_tuple (fetch_article w url))"
    unfolding fetch_article_tuple_iff using main_block_error_shown [of url lib w] by blast
  from 1 2 3 4 5 6 show ?thesis by blast
qed

theorem fetch_result_shape_witness:
  "fetch_article (answers 404 ''Not Found'') ''http://example.com/a''
     = PyTuple [PyNone, PyStr ''404 Client Error: Not Found for url: http://example.com/a'']
   \<and> isinstance_tuple (fetch_article (answers 404 ''Not Found'') ''http://example.com/a'')
   \<and> fetch_article (serves_rejected ''rejected'') ''http://example.com/a''
     = PyTuple [PyNone, PyStr ''rejected'']
   \<and> fetch_article (serves [Element ''p'' [] [TextNode ''Body'']]) ''http://example.com/a''
     = PyStr ''Body''
   \<and> \<not> isinstance_tuple
         (fetch_article (serves [Element ''p'' [] [TextNode ''Body'']]) ''http://example.com/a'')"
proof -
  let ?u = "''http://example.com/a''"
  let ?r1 = "\<lparr> status_code = 404, reason = ''Not Found'', content = Document [] \<rparr>"
  let ?r2 = "\<lparr> status_code = 200, reason = ''OK'', content = Malformed ''rejected'' \<rparr>"
  let ?doc = "[Element ''p'' [] [TextNode ''Body'']]"
  let ?r3 = "\<lparr> status_code = 200, reason = ''OK'', content = Document ?doc \<rparr>"
  have S: "str_nat 404 = ''404''" by code_simp
  have E: "extract_text selectors (remove_noise ?doc) = ''Body''" by code_simp
  have W1: "answers 404 ''Not Found'' ?u = Returns ?r1" by (simp add: answers_def)
  have W2: "serves_rejected ''rejected'' ?u = Returns ?r2" by (simp add: serves_rejected_def)
  have W3: "serves ?doc ?u = Returns ?r3" by (simp add: serves_def)
  from fetch_result_shape [of "answers 404 ''Not Found''" ?u _ ?r1 _ _ toy_nltk] W1 S
  have 1: "fetch_article (answers 404 ''Not Found'') ?u
     = PyTuple [PyNone, PyStr ''404 Client Error: Not Found for url: http://example.com/a'']
     \<and> isinstance_tuple (fetch_article (answers 404 ''Not Found'') ?u)"
    by simp
  from fetch_result_shape [of "serves_rejected ''rejected''" ?u _ ?r2 "''rejected''" _ toy_nltk] W2
  have 2: "fetch_article (serves_rejected ''rejected'') ?u = PyTuple [PyNone, PyStr ''rejected'']"
    by simp
  from fetch_result_shape [of "serves ?doc" ?u _ ?r3 _ ?doc toy_nltk] W3 E
  have 3: "fetch_article (serves ?doc) ?u = PyStr ''Body''
     \<and> \<not> isinstance_tuple (fetch_article (serves ?doc) ?u)"
    by simp
  from 1 2 3 show ?thesis by simp
qed



section \<open>The order of the selectors and the paragraph fallback\<close>

lemma select_loop_stops:
  "select_one sel sp = Some found
     \<Longrightarrow> select_loop (pre @ sel # post) sp = select_loop (pre @ [sel]) sp"
  by (induction pre) (simp_all split: option.splits)

lemma extract_text_fallback:
  "select_loop sels sp = []
     \<Longrightarrow> extract_text sels sp = join '' '' (map (get_text [] True) (find_all ''p'' sp))"
  by (simp add: extract_text_def)

lemma extract_text_matched:
  "select_loop sels sp \<noteq> [] \<Longrightarrow> extract_text sels sp = select_loop sels sp"
  by (simp add: extract_text_def)

text \<open>
  Claim C2, amended. The selectors are tried in the order \<open>article\<close>,
  \<open>.article-content\<close>, \<open>.story-content\<close>, \<open>[class*="article"]\<close>,
  \<open>[class*="content"]\<close>, on the tree left when the script, style, nav, header and
  footer elements are removed, and the first that finds an element ends the loop: the
  result of the loop is that element's text whatever the later selectors would find.
  So when that tree has an \<open>article\<close> element, the text of the first one is what
  \<open>fetch_article\<close> returns if it is not empty, with or without an element of class
  \<open>article-content\<close>; if it is empty, the joined paragraph texts are returned.
\<close>

theorem selector_priority_first_match:
  assumes "w url = Returns r"
    and "\<not> (400 \<le> status_code r \<and> status_code r < 600)"
    and "content r = Document doc"
    and "select_one (TagSel ''article'') (remove_noise doc) = Some a"
  shows "(get_text '' '' True a \<noteq> [] \<longrightarrow> fetch_article w url = PyStr (get_text '' '' True a))
    \<and> (get_text '' '' True a = [] \<longrightarrow>
          fetch_article w url
            = PyStr (join '' '' (map (get_text [] True) (find_all ''p'' (remove_noise doc)))))
    \<and> (\<forall>pre sel post found sp.
          selectors = pre @ sel # post \<and> (\<forall>s \<in> set pre. select_one s sp = None)
          \<and> select_one sel sp = Some found
          \<longrightarrow> select_loop selectors sp = get_text '' '' True found
              \<and> select_loop selectors sp = select_loop (pre @ [sel]) sp)
    \<and> selectors = [TagSel ''article'', ClassSel ''article-content'', ClassSel ''story-content'',
                    ClassContains ''article'', ClassContains ''content'']"
proof -
  let ?sp = "remove_noise doc"
  have L: "select_loop selectors ?sp = get_text '' '' True a"
    using assms(4) by (simp add: selectors_def)
  have B: "fetch_body w url = Inr (extract_text selectors ?sp)"
    using fetch_body_success [of w url r doc] assms(1,2,3) by simp
  have 1: "get_text '' '' True a \<noteq> [] \<longrightarrow> fetch_article w url = PyStr (get_text '' '' True a)"
    using L B by (simp add: fetch_article_def extract_text_matched)
  have 2: "get_text '' '' True a = [] \<longrightarrow>
          fetch_article w url = PyStr (join '' '' (map (get_text [] True) (find_all ''p'' ?sp)))"
    using L B by (simp add: fetch_article_def extract_text_fallback)
  have 3: "\<forall>pre sel post found sp.
          selectors = pre @ sel # post \<and> (\<forall>s \<in> set pre. select_one s sp = None)
          \<and> select_one sel sp = Some found
          \<longrightarrow> select_loop selectors sp = get_text '' '' True found
              \<and> select_loop selectors sp = select_loop (pre @ [sel]) sp"
    using select_loop_first_match select_loop_stops by metis
  have 4: "selectors = [TagSel ''article'', ClassSel ''article-content'', ClassSel ''story-content'',
                    ClassContains ''article'', ClassContains ''content'']"
    by (simp add: selectors_def)
  from 1 2 3 4 show ?thesis by blast
qed

theorem selector_priority_first_match_witness:
  "fetch_article
     (serves [Element ''div'' [''article-content''] [TextNode ''Teaser''],
              Element ''article'' [] [TextNode '' Head '', Element ''p'' [] [TextNode ''Body'']]])
     ''http://example.com/a''
   = PyStr ''Head Body''"
proof -
  let ?doc = "[Element ''div'' [''article-content''] [TextNode ''Teaser''],
              Element ''article'' [] [TextNode '' Head '', Element ''p'' [] [TextNode ''Body'']]]"
  let ?a = "Element ''article'' [] [TextNode '' Head '', Element ''p'' [] [TextNode ''Body'']]"
  let ?r = "\<lparr> status_code = 200, reason = ''OK'', content = Document ?doc \<rparr>"
  have 1: "serves ?doc ''http://example.com/a'' = Returns ?r"
    by (simp add: serves_def)
  have 2: "\<not> (400 \<le> status_code ?r \<and> status_code ?r < 600)"
    by simp
  have 3: "content ?r = Document ?doc"
    by simp
  have 4: "select_one (TagSel ''article'') (remove_noise ?doc) = Some ?a"
    by (simp add: select_one_def soup_elements_def remove_noise_def noise_tags_def)
  have 5: "get_text '' '' True ?a = ''Head Body''"
    by (simp add: get_text_def strip_def isspace_def)
  from selector_priority_first_match
         [of "serves ?doc" "''http://example.com/a''" ?r ?doc ?a, OF 1 2 3 4] 5
  show ?thesis by simp
qed

text \<open>
  Claim C2 as stated, for every document with an \<open>article\<close> element and an element of
  class \<open>article-content\<close>, fails twice: an \<open>article\<close> element with no text leaves the
  result to the paragraphs, and one inside a \<open>header\<close> is removed before the selectors
  are tried.
\<close>

theorem article_element_not_always_extracted:
  "select_one (TagSel ''article'')
     [Element ''article'' [] [],
      Element ''div'' [''article-content''] [Element ''p'' [] [TextNode ''Body'']]]
     = Some (Element ''article'' [] [])
   \<and> select_one (ClassSel ''article-content'')
     [Element ''article'' [] [],
      Element ''div'' [''article-content''] [Element ''p'' [] [TextNode ''Body'']]]
     = Some (Element ''div'' [''article-content''] [Element ''p'' [] [TextNode ''Body'']])
   \<and> get_text '' '' True (Element ''article'' [] []) = []
   \<and> fetch_article
       (serves [Element ''article'' [] [],
                Element ''div'' [''article-content''] [Element ''p'' [] [TextNode ''Body'']]])
       ''http://example.com/a''
     = PyStr ''Body''
   \<and> select_one (TagSel ''article'')
     [Element ''header'' [] [Element ''article'' [] [TextNode ''Masthead'']],
      Element ''div'' [''article-content''] [TextNode ''Body'']]
     = Some (Element ''article'' [] [TextNode ''Masthead''])
   \<and> get_text '' '' True (Element ''article'' [] [TextNode ''Masthead'']) = ''Masthead''
   \<and> fetch_article
       (serves [Element ''header'' [] [Element ''article'' [] [TextNode ''Masthead'']],
                Element ''div'' [''article-content''] [TextNode ''Body'']])
       ''http://example.com/a''
     = PyStr ''Body''"
  by code_simp

text \<open>
  Claim C3, at the document \<open><p>Hello <b>world</b></p>\<close>. No selector finds an
  element, so the paragraphs are collected. The text of the paragraph, stripped, is
  \<open>Hello world\<close>, which is also what the selector branch's
  \<open>get_text(separator=' ', strip=True)\<close> gives for the same element; the fallback's
  \<open>get_text(strip=True)\<close> strips each fragment and joins them with nothing between,
  and \<open>fetch_article\<close> returns \<open>Helloworld\<close>.
\<close>

theorem paragraph_fragments_are_glued:
  "map (\<lambda>sel. select_one sel
          [Element ''p'' [] [TextNode ''Hello '', Element ''b'' [] [TextNode ''world'']]])
       selectors
     = [None, None, None, None, None]
   \<and> fetch_article
       (serves [Element ''p'' [] [TextNode ''Hello '', Element ''b'' [] [TextNode ''world'']]])
       ''http://example.com/a''
     = PyStr ''Helloworld''
   \<and> spec_paragraph_fallback
       (remove_noise [Element ''p'' [] [TextNode ''Hello '', Element ''b'' [] [TextNode ''world'']]])
     = ''Hello world''
   \<and> get_text '' '' True
       (Element ''p'' [] [TextNode ''Hello '', Element ''b'' [] [TextNode ''world'']])
     = ''Hello world''"
  by code_simp

end
